theory Spec2Isabelle
  imports Main "HOL-Library.Word"
begin

unbundle bit_operations_syntax

section \<open>Bytes, strings and 32-bit fields\<close>

text \<open>
  A Go \<^verbatim>\<open>string\<close> is an immutable sequence of bytes, and so is an Isabelle
  \<^typ>\<open>string\<close> (a list of 8-bit characters).  A Go \<^verbatim>\<open>[]byte\<close> is a list of
  8-bit words; \<^verbatim>\<open>uint32\<close> is a 32-bit word, whose arithmetic wraps around.
\<close>

type_synonym byte = "8 word"
type_synonym u32 = "32 word"

text \<open>The conversions \<^verbatim>\<open>[]byte(s)\<close> and \<^verbatim>\<open>string(b)\<close>.\<close>

definition byte_of_char :: "char \<Rightarrow> byte" where
  "byte_of_char c = of_nat (of_char c)"

definition char_of_byte :: "byte \<Rightarrow> char" where
  "char_of_byte b = char_of (unat b)"

definition bytes_of_string :: "string \<Rightarrow> byte list" where
  "bytes_of_string s = map byte_of_char s"

definition string_of_bytes :: "byte list \<Rightarrow> string" where
  "string_of_bytes bs = map char_of_byte bs"

section \<open>The record format\<close>

text \<open>
  Modelled from the spec: the file that declares \<^verbatim>\<open>KeyEntry\<close>, \<^verbatim>\<open>NewKeyEntry\<close>,
  \<^verbatim>\<open>encodeKV\<close> and \<^verbatim>\<open>decodeKV\<close> is not among the sources; only their callers
  in \<^verbatim>\<open>disk_store.go\<close> and \<^verbatim>\<open>memory_store.go\<close> are.  The spec gives a key entry
  three 32-bit unsigned fields: the write time, the byte offset of the record's start and
  the byte length of the full encoded record.
\<close>

record KeyEntry =
  Timestamp :: u32
  Position :: u32
  TotalSize :: u32

text \<open>
  Modelled from the spec: \<^verbatim>\<open>NewKeyEntry\<close> is missing with \<^verbatim>\<open>KeyEntry\<close>;
  \<^verbatim>\<open>DiskStore.Set\<close> calls it with the time stamp, the position and the total size, the
  order of the spec's \<open>{timestamp, position, totalSize}\<close>.
\<close>

definition NewKeyEntry :: "u32 \<Rightarrow> u32 \<Rightarrow> u32 \<Rightarrow> KeyEntry" where
  "NewKeyEntry timestamp position totalSize =
     \<lparr>Timestamp = timestamp, Position = position, TotalSize = totalSize\<rparr>"

text \<open>
  Modelled from the spec: the header size is missing with the codec.  A record has a
  fixed-size header of three 32-bit unsigned integers, which is 12 bytes.
\<close>

definition headerSize :: nat where
  "headerSize = 12"

text \<open>
  Modelled from the spec: how a header field is laid out in bytes is missing with the
  codec.  The spec says a field is a 32-bit unsigned integer and does not fix the byte
  order; the least significant byte comes first here.
\<close>

definition PutUint32 :: "u32 \<Rightarrow> byte list" where
  "PutUint32 w = [ucast w, ucast (drop_bit 8 w), ucast (drop_bit 16 w), ucast (drop_bit 24 w)]"

text \<open>
  Modelled from the spec: reading a header field back, the inverse of \<open>PutUint32\<close>.  It
  is only applied to four bytes.
\<close>

definition Uint32 :: "byte list \<Rightarrow> u32" where
  "Uint32 bs = ucast (bs ! 0) OR push_bit 8 (ucast (bs ! 1)) OR push_bit 16 (ucast (bs ! 2))
     OR push_bit 24 (ucast (bs ! 3))"

text \<open>
  Modelled from the spec: the header is missing with the codec; it holds the timestamp,
  the key length and the value length, in that order.
\<close>

definition encodeHeader :: "u32 \<Rightarrow> u32 \<Rightarrow> u32 \<Rightarrow> byte list" where
  "encodeHeader timestamp keySize valueSize =
     PutUint32 timestamp @ PutUint32 keySize @ PutUint32 valueSize"

text \<open>
  Modelled from the spec: decoding reads the three header fields in the same order.
  \<open>decodeHeader\<close> is only applied to a header of \<open>headerSize\<close> bytes.
\<close>

definition decodeHeader :: "byte list \<Rightarrow> u32 \<times> u32 \<times> u32" where
  "decodeHeader header =
     (Uint32 (take 4 header), Uint32 (take 4 (drop 4 header)), Uint32 (take 4 (drop 8 header)))"

text \<open>
  Modelled from the spec: \<open>encode(timestamp, key, value) \<rightarrow> (totalSize, bytes)\<close> produces
  header, key bytes and value bytes in that order, with
  \<open>totalSize = header size + key length + value length\<close>.  A length field holds the
  length reduced to 32 bits, which is what the conversion \<^verbatim>\<open>uint32(totalSize)\<close> in
  \<^verbatim>\<open>DiskStore.Set\<close> does to the total size; the spec leaves longer keys and values open.
\<close>

definition encodeKV :: "u32 \<Rightarrow> string \<Rightarrow> string \<Rightarrow> nat \<times> byte list" where
  "encodeKV timestamp key val =
     (let header = encodeHeader timestamp (of_nat (length key)) (of_nat (length val));
          data = bytes_of_string key @ bytes_of_string val
      in (headerSize + length data, header @ data))"

text \<open>
  Modelled from the spec: \<open>decode(bytes) \<rightarrow> (timestamp, key, value)\<close> reads the three
  header fields in the same order, then slices the remainder into a key segment of the
  declared key length and a value segment of the declared value length.  Where the
  bytes are too few for the header or for the declared lengths there is nothing to
  slice: the result is \<open>None\<close> (the spec's malformed record).
\<close>

definition decodeKV :: "byte list \<Rightarrow> (u32 \<times> string \<times> string) option" where
  "decodeKV data =
     (if length data < headerSize then None
      else
        (case decodeHeader (take headerSize data) of
           (timestamp, keySize, valueSize) \<Rightarrow>
             if length data < headerSize + unat keySize + unat valueSize then None
             else Some (timestamp,
               string_of_bytes (take (unat keySize) (drop headerSize data)),
               string_of_bytes (take (unat valueSize) (drop (headerSize + unat keySize) data)))))"

section \<open>The log file\<close>

text \<open>
  The store keeps a \<^verbatim>\<open>*os.File\<close>.  What the store can observe of it is modelled here:
  whether the pointer is nil (the file could not be created), open or closed, the bytes
  of the file, and the file offset that \<^verbatim>\<open>Write\<close>, \<^verbatim>\<open>Read\<close> and \<^verbatim>\<open>Seek\<close> share.
  The methods of a nil \<^verbatim>\<open>*os.File\<close> return \<^verbatim>\<open>ErrInvalid\<close>, those of a closed one
  \<^verbatim>\<open>ErrClosed\<close>.
\<close>

datatype os_error = ErrInvalid | ErrClosed | ErrEOF | ErrIO | ErrCreate

datatype handle = NilFile | Opened | Released

record File =
  handle :: handle
  content :: "byte list"
  cursor :: nat

text \<open>
  The device a write goes to: it takes every byte, or it fails once it has taken the
  given number of bytes.
\<close>

datatype disk = Healthy | FailsAfter nat

text \<open>
  The bytes of a file after \<open>bs\<close> is written at offset \<open>pos\<close>: bytes in the way are
  overwritten, a gap between the old end and \<open>pos\<close> reads as zeros, and writing nothing
  leaves the file as it is.
\<close>

definition write_at :: "byte list \<Rightarrow> nat \<Rightarrow> byte list \<Rightarrow> byte list" where
  "write_at old pos bs =
     (if bs = [] then old
      else take pos old @ replicate (pos - length old) 0 @ bs @ drop (pos + length bs) old)"

text \<open>\<^verbatim>\<open>os.Create\<close>: a new or truncated file, open at offset 0, or nil and an error.
  The first argument is what the file at that path held before, if it existed.\<close>

definition os_Create :: "byte list option \<Rightarrow> bool \<Rightarrow> File \<times> os_error option" where
  "os_Create existing ok =
     (if ok then (\<lparr>handle = Opened, content = [], cursor = 0\<rparr>, None)
      else (\<lparr>handle = NilFile, content = [], cursor = 0\<rparr>, Some ErrCreate))"

text \<open>\<^verbatim>\<open>File.Write\<close>: the file after the call, the number of bytes written, the error.\<close>

definition file_Write :: "File \<Rightarrow> byte list \<Rightarrow> disk \<Rightarrow> File \<times> nat \<times> os_error option" where
  "file_Write f bs dk =
     (case handle f of
        NilFile \<Rightarrow> (f, 0, Some ErrInvalid)
      | Released \<Rightarrow> (f, 0, Some ErrClosed)
      | Opened \<Rightarrow>
          (let n = (case dk of Healthy \<Rightarrow> length bs | FailsAfter m \<Rightarrow> min m (length bs))
           in (f\<lparr>content := write_at (content f) (cursor f) (take n bs), cursor := cursor f + n\<rparr>,
               n, if n < length bs then Some ErrIO else None)))"

text \<open>\<^verbatim>\<open>File.Seek(pos, 0)\<close>: the offset is set from the start of the file.\<close>

definition file_Seek :: "File \<Rightarrow> nat \<Rightarrow> File \<times> os_error option" where
  "file_Seek f pos =
     (case handle f of
        NilFile \<Rightarrow> (f, Some ErrInvalid)
      | Released \<Rightarrow> (f, Some ErrClosed)
      | Opened \<Rightarrow> (f\<lparr>cursor := pos\<rparr>, None))"

text \<open>
  \<^verbatim>\<open>File.Read\<close> into a zeroed buffer of \<open>n\<close> bytes: the file after the call, the buffer
  after the call, the error.  An empty buffer reads nothing and is no error; at or past
  the end of the file the error is \<^verbatim>\<open>io.EOF\<close>; otherwise the bytes that are there, up to
  \<open>n\<close>, are read and the rest of the buffer stays zero.
\<close>

definition file_Read :: "File \<Rightarrow> nat \<Rightarrow> File \<times> byte list \<times> os_error option" where
  "file_Read f n =
     (case handle f of
        NilFile \<Rightarrow> (f, replicate n 0, Some ErrInvalid)
      | Released \<Rightarrow> (f, replicate n 0, Some ErrClosed)
      | Opened \<Rightarrow>
          if n = 0 then (f, [], None)
          else if length (content f) \<le> cursor f then (f, replicate n 0, Some ErrEOF)
          else
            (let got = take n (drop (cursor f) (content f))
             in (f\<lparr>cursor := cursor f + length got\<rparr>,
                 got @ replicate (n - length got) 0, None)))"

text \<open>\<^verbatim>\<open>File.Close\<close>: the flag tells whether the system's close succeeds; the file is
  closed either way.\<close>

definition file_Close :: "File \<Rightarrow> bool \<Rightarrow> File \<times> os_error option" where
  "file_Close f ok =
     (case handle f of
        NilFile \<Rightarrow> (f, Some ErrInvalid)
      | Released \<Rightarrow> (f, Some ErrClosed)
      | Opened \<Rightarrow> (f\<lparr>handle := Released\<rparr>, if ok then None else Some ErrIO))"

section \<open>The disk store\<close>

record DiskStore =
  file' :: File
  keyDir :: "string \<rightharpoonup> KeyEntry"
  offset :: u32

text \<open>
  \<^verbatim>\<open>NewDiskStore\<close> returns a pointer to a new store (\<open>None\<close> would be the nil pointer)
  and the error of \<^verbatim>\<open>os.Create\<close>.
\<close>

definition NewDiskStore ::
  "string \<Rightarrow> byte list option \<Rightarrow> bool \<Rightarrow> DiskStore option \<times> os_error option" where
  "NewDiskStore fileName existing ok =
     (case os_Create existing ok of
        (f, err) \<Rightarrow> (Some \<lparr>file' = f, keyDir = Map.empty, offset = 0\<rparr>, err))"

text \<open>
  A call of \<^verbatim>\<open>Get\<close> returns a string or panics.  \<^verbatim>\<open>decodeKV\<close> has no error result,
  so a record it cannot slice is a panic too.
\<close>

datatype outcome = Returned string | Panicked string

definition DiskStore_Get :: "DiskStore \<Rightarrow> string \<Rightarrow> outcome \<times> DiskStore" where
  "DiskStore_Get d key =
     (case keyDir d key of
        None \<Rightarrow> (Returned [], d)
      | Some keyInfo \<Rightarrow>
          (case file_Seek (file' d) (unat (Position keyInfo)) of
             (f1, Some e1) \<Rightarrow> (Panicked ''Get() error during Seek'', d\<lparr>file' := f1\<rparr>)
           | (f1, None) \<Rightarrow>
               (case file_Read f1 (unat (TotalSize keyInfo)) of
                  (f2, byteArray, Some e2) \<Rightarrow>
                    (Panicked ''Get() error during Read'', d\<lparr>file' := f2\<rparr>)
                | (f2, byteArray, None) \<Rightarrow>
                    (case decodeKV byteArray of
                       None \<Rightarrow> (Panicked ''decodeKV: slice bounds out of range'', d\<lparr>file' := f2\<rparr>)
                     | Some (timestamp, k, val) \<Rightarrow> (Returned val, d\<lparr>file' := f2\<rparr>)))))"

text \<open>
  \<^verbatim>\<open>Set\<close> takes the time stamp \<^verbatim>\<open>uint32(time.Now().Unix())\<close> and the behaviour of
  the device as arguments.  It returns nothing: the result of \<^verbatim>\<open>Write\<close> is dropped.
\<close>

definition DiskStore_Set :: "DiskStore \<Rightarrow> u32 \<Rightarrow> string \<Rightarrow> string \<Rightarrow> disk \<Rightarrow> DiskStore" where
  "DiskStore_Set d ts key val dk =
     (case encodeKV ts key val of
        (totalSize, byteArr) \<Rightarrow>
          (let d1 = d\<lparr>keyDir := (keyDir d)(key \<mapsto> NewKeyEntry ts (offset d) (of_nat totalSize))\<rparr>;
               d2 = d1\<lparr>offset := offset d1 + of_nat totalSize + 1\<rparr>
           in (case file_Write (file' d2) byteArr dk of
                 (f, n, err) \<Rightarrow> d2\<lparr>file' := f\<rparr>)))"

definition DiskStore_Close :: "DiskStore \<Rightarrow> bool \<Rightarrow> bool \<times> DiskStore" where
  "DiskStore_Close d ok =
     (case file_Close (file' d) ok of
        (f, Some err) \<Rightarrow> (False, d\<lparr>file' := f\<rparr>)
      | (f, None) \<Rightarrow> (True, d\<lparr>file' := f\<rparr>))"

text \<open>A run of \<^verbatim>\<open>Set\<close> calls, each with its time stamp, key, value and device.\<close>

fun Sets :: "DiskStore \<Rightarrow> (u32 \<times> string \<times> string \<times> disk) list \<Rightarrow> DiskStore" where
  "Sets d [] = d"
| "Sets d ((ts, key, val, dk) # ws) = Sets (DiskStore_Set d ts key val dk) ws"

text \<open>
  Any run of calls on a store.  The run goes on after a panic of \<^verbatim>\<open>Get\<close>, with the
  store as the panic left it, as it would under a caller that recovers.
\<close>

datatype call = CallGet string | CallSet u32 string string disk | CallClose bool

fun call_step :: "DiskStore \<Rightarrow> call \<Rightarrow> DiskStore" where
  "call_step d (CallGet key) = snd (DiskStore_Get d key)"
| "call_step d (CallSet ts key val dk) = DiskStore_Set d ts key val dk"
| "call_step d (CallClose ok) = snd (DiskStore_Close d ok)"

fun calls :: "DiskStore \<Rightarrow> call list \<Rightarrow> DiskStore" where
  "calls d [] = d"
| "calls d (c # cs) = calls (call_step d c) cs"




fun written_keys :: "call list \<Rightarrow> string list" where
  "written_keys [] = []"
| "written_keys (CallSet ts key val dk # cs) = key # written_keys cs"
| "written_keys (c # cs) = written_keys cs"

section \<open>The memory store\<close>

record MemoryStore =
  data :: "string \<rightharpoonup> KeyEntry"

definition NewMemoryStore :: MemoryStore where
  "NewMemoryStore = \<lparr>data = Map.empty\<rparr>"

text \<open>The zero value of \<^verbatim>\<open>KeyEntry\<close>, which indexing a Go map gives for a missing key.\<close>

definition zero_KeyEntry :: KeyEntry where
  "zero_KeyEntry = \<lparr>Timestamp = 0, Position = 0, TotalSize = 0\<rparr>"

definition MemoryStore_Get :: "MemoryStore \<Rightarrow> string \<Rightarrow> KeyEntry" where
  "MemoryStore_Get m key = (case data m key of None \<Rightarrow> zero_KeyEntry | Some e \<Rightarrow> e)"

definition MemoryStore_Set :: "MemoryStore \<Rightarrow> string \<Rightarrow> KeyEntry \<Rightarrow> MemoryStore" where
  "MemoryStore_Set m key v = m\<lparr>data := (data m)(key \<mapsto> v)\<rparr>"

definition MemoryStore_Close :: "MemoryStore \<Rightarrow> bool" where
  "MemoryStore_Close m = True"

fun MemoryStore_Sets :: "MemoryStore \<Rightarrow> (string \<times> KeyEntry) list \<Rightarrow> MemoryStore" where
  "MemoryStore_Sets m [] = m"
| "MemoryStore_Sets m ((key, v) # kvs) = MemoryStore_Sets (MemoryStore_Set m key v) kvs"

section \<open>Facts about the codec\<close>

lemma Uint32_PutUint32: "Uint32 (PutUint32 w @ rest) = w"
  unfolding Uint32_def PutUint32_def
  apply simp
  apply (rule bit_word_eqI)
  apply (auto simp: bit_simps)
  subgoal for n by (cases "n < 24") (simp_all add: not_less)
  done

lemma length_PutUint32: "length (PutUint32 w) = 4"
  by (simp add: PutUint32_def)

lemma length_encodeHeader: "length (encodeHeader t k v) = 12"
  by (simp add: encodeHeader_def length_PutUint32)

lemma decodeHeader_encodeHeader: "decodeHeader (encodeHeader t k v) = (t, k, v)"
proof -
  have a: "take 4 (encodeHeader t k v) = PutUint32 t"
    by (simp add: encodeHeader_def length_PutUint32)
  have b: "take 4 (drop 4 (encodeHeader t k v)) = PutUint32 k"
    by (simp add: encodeHeader_def length_PutUint32)
  have c: "take 4 (drop 8 (encodeHeader t k v)) = PutUint32 v"
    by (simp add: encodeHeader_def length_PutUint32)
  show ?thesis
    unfolding decodeHeader_def a b c
    using Uint32_PutUint32 [of _ "[]"] by simp
qed

lemma char_of_byte_of_char: "char_of_byte (byte_of_char c) = c"
  by (simp add: byte_of_char_def char_of_byte_def unat_of_nat)

lemma string_of_bytes_of_string: "string_of_bytes (bytes_of_string s) = s"
  by (induction s) (simp_all add: string_of_bytes_def bytes_of_string_def char_of_byte_of_char)

lemma length_bytes_of_string: "length (bytes_of_string s) = length s"
  by (simp add: bytes_of_string_def)

lemma fst_encodeKV: "fst (encodeKV ts key val) = 12 + length key + length val"
  by (simp add: encodeKV_def Let_def headerSize_def length_bytes_of_string)

lemma length_encodeKV: "length (snd (encodeKV ts key val)) = 12 + length key + length val"
  by (simp add: encodeKV_def Let_def length_encodeHeader length_bytes_of_string)

text \<open>What \<open>decodeKV\<close> makes of an encoded record, whatever the lengths.\<close>

lemma decodeKV_encodeKV_gen:
  "decodeKV (snd (encodeKV ts key val)) =
     (if 12 + length key + length val
          < 12 + unat (of_nat (length key) :: u32) + unat (of_nat (length val) :: u32)
      then None
      else Some (ts,
        string_of_bytes (take (unat (of_nat (length key) :: u32))
          (bytes_of_string key @ bytes_of_string val)),
        string_of_bytes (take (unat (of_nat (length val) :: u32))
          (drop (unat (of_nat (length key) :: u32))
            (bytes_of_string key @ bytes_of_string val)))))"
proof -
  define h where "h = encodeHeader ts (of_nat (length key)) (of_nat (length val))"
  define body where "body = bytes_of_string key @ bytes_of_string val"
  have e: "snd (encodeKV ts key val) = h @ body"
    by (simp add: encodeKV_def Let_def h_def body_def)
  have lh: "length h = 12"
    by (simp add: h_def length_encodeHeader)
  have lb: "length body = length key + length val"
    by (simp add: body_def length_bytes_of_string)
  have "take 12 (h @ body) = h"
    by (simp add: lh)
  then have dh: "decodeHeader (take 12 (h @ body)) = (ts, of_nat (length key), of_nat (length val))"
    by (simp add: h_def decodeHeader_encodeHeader)
  show ?thesis
    unfolding e decodeKV_def headerSize_def dh
    by (simp add: lh lb body_def [symmetric])
qed

lemma decode_encode_bounded:
  assumes "length key < 2 ^ 32" and "length val < 2 ^ 32"
  shows "decodeKV (snd (encodeKV ts key val)) = Some (ts, key, val)"
proof -
  have k: "unat (of_nat (length key) :: u32) = length key"
    using assms(1) by (simp add: unat_of_nat)
  have v: "unat (of_nat (length val) :: u32) = length val"
    using assms(2) by (simp add: unat_of_nat)
  show ?thesis
    unfolding decodeKV_encodeKV_gen k v
    by (simp add: length_bytes_of_string string_of_bytes_of_string)
qed

text \<open>
  C1, as amended.  For every timestamp and all keys and values shorter than \<open>2^32\<close> bytes
  (the empty string and every byte content included), decoding the encoding of a record
  gives back the timestamp, the key and the value.
\<close>

theorem decodeKV_encodeKV:
  assumes "length key < 2 ^ 32" and "length val < 2 ^ 32"
  shows "decodeKV (snd (encodeKV ts key val)) = Some (ts, key, val)"
  using assms by (rule decode_encode_bounded)

theorem decodeKV_encodeKV_witness:
  "length ''key'' < (2::nat) ^ 32 \<and> length '''' < (2::nat) ^ 32
   \<and> decodeKV (snd (encodeKV 1700000000 ''key'' '''')) = Some (1700000000, ''key'', '''')"
  using decodeKV_encodeKV [of "''key''" "''''" 1700000000] by simp

text \<open>
  A key of \<open>2^32\<close> bytes has the key length 0 in its header: the claim as the spec states
  it, for keys of any length, fails there.
\<close>

theorem decodeKV_encodeKV_counterexample:
  "decodeKV (snd (encodeKV 0 (replicate (2 ^ 32) (CHR ''a'')) ''''))
     \<noteq> Some (0, replicate (2 ^ 32) (CHR ''a''), '''')"
proof -
  have z: "unat (of_nat (length (replicate ((2::nat) ^ 32) (CHR ''a''))) :: u32) = 0"
    by (simp add: unat_of_nat)
  have "decodeKV (snd (encodeKV 0 (replicate (2 ^ 32) (CHR ''a'')) '''')) = Some (0, '''', '''')"
    unfolding decodeKV_encodeKV_gen z
    by (simp add: string_of_bytes_def)
  moreover have "replicate ((2::nat) ^ 32) (CHR ''a'') \<noteq> ''''"
    by simp
  ultimately show ?thesis by simp
qed

section \<open>Facts about the store\<close>

lemma Set_keyDir: "keyDir (DiskStore_Set d ts key val dk) =
   (keyDir d)(key \<mapsto> NewKeyEntry ts (offset d) (of_nat (fst (encodeKV ts key val))))"
  by (simp add: DiskStore_Set_def Let_def split: prod.splits)

lemma Set_offset:
  "offset (DiskStore_Set d ts key val dk) = offset d + of_nat (fst (encodeKV ts key val)) + 1"
  by (simp add: DiskStore_Set_def Let_def split: prod.splits)

lemma Set_file:
  "file' (DiskStore_Set d ts key val dk) = fst (file_Write (file' d) (snd (encodeKV ts key val)) dk)"
  by (simp add: DiskStore_Set_def Let_def split: prod.splits)

lemma Get_None: "keyDir d key = None \<Longrightarrow> DiskStore_Get d key = (Returned [], d)"
  by (simp add: DiskStore_Get_def)

lemma file_Seek_not_open:
  "handle f \<noteq> Opened \<Longrightarrow> \<exists>e. file_Seek f pos = (f, Some e)"
  by (cases "handle f") (simp_all add: file_Seek_def)

lemma file_Seek_open: "handle f = Opened \<Longrightarrow> file_Seek f pos = (f\<lparr>cursor := pos\<rparr>, None)"
  by (simp add: file_Seek_def)

lemma Get_not_open:
  assumes "keyDir d key = Some e" and "handle (file' d) \<noteq> Opened"
  shows "DiskStore_Get d key = (Panicked ''Get() error during Seek'', d)"
proof -
  obtain err where "file_Seek (file' d) (unat (Position e)) = (file' d, Some err)"
    using file_Seek_not_open [OF assms(2)] by blast
  then show ?thesis
    unfolding DiskStore_Get_def by (simp only: assms(1) option.case prod.case) simp
qed

lemma Get_open:
  assumes "keyDir d key = Some e" and "handle (file' d) = Opened"
    and "file_Read ((file' d)\<lparr>cursor := unat (Position e)\<rparr>) (unat (TotalSize e)) = (f2, buf, err)"
  shows "DiskStore_Get d key =
    (case err of
       Some e2 \<Rightarrow> Panicked ''Get() error during Read''
     | None \<Rightarrow>
        (case decodeKV buf of
           None \<Rightarrow> Panicked ''decodeKV: slice bounds out of range''
         | Some (timestamp, k, val) \<Rightarrow> Returned val),
     d\<lparr>file' := f2\<rparr>)"
  unfolding DiskStore_Get_def
  by (simp only: assms(1) option.case prod.case file_Seek_open [OF assms(2)] assms(3))
    (simp split: option.splits)

lemma Get_keyDir: "keyDir (snd (DiskStore_Get d key)) = keyDir d"
proof (cases "keyDir d key")
  case None
  then show ?thesis by (simp add: Get_None)
next
  case (Some e)
  show ?thesis
  proof (cases "handle (file' d) = Opened")
    case False
    then show ?thesis by (simp add: Get_not_open [OF Some])
  next
    case True
    obtain f2 buf err where
      "file_Read ((file' d)\<lparr>cursor := unat (Position e)\<rparr>) (unat (TotalSize e)) = (f2, buf, err)"
      by (metis prod_cases3)
    then show ?thesis by (simp add: Get_open [OF Some True])
  qed
qed

lemma Close_keyDir: "keyDir (snd (DiskStore_Close d ok)) = keyDir d"
  by (simp add: DiskStore_Close_def split: option.splits prod.splits)

lemma file_Write_closed: "handle f \<noteq> Opened \<Longrightarrow> fst (file_Write f bs dk) = f"
  by (simp add: file_Write_def split: handle.splits)

lemma file_Write_Healthy:
  "handle f = Opened \<Longrightarrow> file_Write f bs Healthy =
     (f\<lparr>content := write_at (content f) (cursor f) bs, cursor := cursor f + length bs\<rparr>,
      length bs, None)"
  by (simp add: file_Write_def Let_def)

lemma file_Write_handle: "handle (fst (file_Write f bs dk)) = handle f"
  by (simp add: file_Write_def Let_def split: handle.splits)

lemma file_Read_handle: "handle (fst (file_Read f n)) = handle f"
  by (simp add: file_Read_def Let_def split: handle.splits)

lemma Get_handle: "handle (file' (snd (DiskStore_Get d key))) = handle (file' d)"
proof (cases "keyDir d key")
  case None
  then show ?thesis by (simp add: Get_None)
next
  case (Some e)
  show ?thesis
  proof (cases "handle (file' d) = Opened")
    case False
    then show ?thesis by (simp add: Get_not_open [OF Some])
  next
    case True
    obtain f2 buf err where
      r: "file_Read ((file' d)\<lparr>cursor := unat (Position e)\<rparr>) (unat (TotalSize e)) = (f2, buf, err)"
      by (metis prod_cases3)
    have "handle f2 = Opened"
      using file_Read_handle [of "(file' d)\<lparr>cursor := unat (Position e)\<rparr>" "unat (TotalSize e)"] True
      by (simp add: r)
    then show ?thesis by (simp add: Get_open [OF Some True r] True)
  qed
qed

lemma Close_handle:
  "handle (file' (snd (DiskStore_Close d ok))) =
     (if handle (file' d) = Opened then Released else handle (file' d))"
  by (cases "handle (file' d)") (simp_all add: DiskStore_Close_def file_Close_def)

lemma Close_succeeds: "fst (DiskStore_Close d ok) \<longleftrightarrow> handle (file' d) = Opened \<and> ok"
  by (cases "handle (file' d)") (simp_all add: DiskStore_Close_def file_Close_def)

lemma call_step_Released:
  "handle (file' d) = Released \<Longrightarrow> handle (file' (call_step d c)) = Released"
  by (cases c) (simp_all add: Get_handle Set_file file_Write_handle Close_handle)

lemma calls_Released:
  "handle (file' d) = Released \<Longrightarrow> handle (file' (calls d cs)) = Released"
  by (induction cs arbitrary: d) (simp_all add: call_step_Released)

lemma Set_not_open:
  assumes "handle (file' d) \<noteq> Opened"
  shows "DiskStore_Set d ts key val dk =
    d\<lparr>keyDir := (keyDir d)(key \<mapsto> NewKeyEntry ts (offset d) (of_nat (fst (encodeKV ts key val)))),
      offset := offset d + of_nat (fst (encodeKV ts key val)) + 1\<rparr>"
proof -
  obtain totalSize byteArr where e: "encodeKV ts key val = (totalSize, byteArr)"
    by (cases "encodeKV ts key val")
  obtain n err where "file_Write (file' d) byteArr dk = (file' d, n, err)"
    using assms by (cases "handle (file' d)") (simp_all add: file_Write_def)
  then show ?thesis
    by (simp add: DiskStore_Set_def e Let_def)
qed

text \<open>
  C4, as amended.  After \<^verbatim>\<open>Close()\<close> has succeeded, and whatever calls follow it, no call
  returns a closed-store error, for the code has none: \<^verbatim>\<open>Get\<close> of a key that is not in
  the key directory returns the empty string, \<^verbatim>\<open>Get\<close> of a key that is in the key
  directory panics with \<open>Get() error during Seek\<close>, and \<^verbatim>\<open>Set\<close> reports nothing: it
  updates the key directory and the write cursor and leaves the file as it is.
\<close>

theorem calls_after_Close:
  assumes "fst (DiskStore_Close d0 ok)" and "d = calls (snd (DiskStore_Close d0 ok)) cs"
  shows "DiskStore_Get d key =
      (if keyDir d key = None then (Returned [], d)
       else (Panicked ''Get() error during Seek'', d))
    \<and> DiskStore_Set d ts k v dk =
      d\<lparr>keyDir := (keyDir d)(k \<mapsto> NewKeyEntry ts (offset d) (of_nat (fst (encodeKV ts k v)))),
        offset := offset d + of_nat (fst (encodeKV ts k v)) + 1\<rparr>"
proof -
  have "handle (file' (snd (DiskStore_Close d0 ok))) = Released"
    using assms(1) by (simp add: Close_succeeds Close_handle)
  then have r: "handle (file' d) = Released"
    unfolding assms(2) by (rule calls_Released)
  then have n: "handle (file' d) \<noteq> Opened"
    by simp
  have "DiskStore_Get d key =
      (if keyDir d key = None then (Returned [], d)
       else (Panicked ''Get() error during Seek'', d))"
  proof (cases "keyDir d key")
    case None
    then show ?thesis by (simp add: Get_None)
  next
    case (Some e)
    then show ?thesis by (simp add: Get_not_open [OF Some n])
  qed
  then show ?thesis
    using Set_not_open [OF n] by simp
qed

lemma fresh_store:
  "NewDiskStore fileName existing ok =
     (Some \<lparr>file' = \<lparr>handle = (if ok then Opened else NilFile), content = [], cursor = 0\<rparr>,
            keyDir = Map.empty, offset = 0\<rparr>,
      if ok then None else Some ErrCreate)"
  by (simp add: NewDiskStore_def os_Create_def)

lemma enc_a1: "encodeKV 1 ''a'' ''1'' = (14, [1,0,0,0,1,0,0,0,1,0,0,0,97,49])"
  by (simp add: encodeKV_def encodeHeader_def PutUint32_def bytes_of_string_def byte_of_char_def
      drop_bit_eq_div headerSize_def)

lemma Set_a1:
  "DiskStore_Set (the (fst (NewDiskStore ''books.db'' None True))) 1 ''a'' ''1'' Healthy =
     \<lparr>file' = \<lparr>handle = Opened, content = [1,0,0,0,1,0,0,0,1,0,0,0,97,49], cursor = 14\<rparr>,
      keyDir = [''a'' \<mapsto> NewKeyEntry 1 0 14], offset = 15\<rparr>"
  by (simp add: fresh_store DiskStore_Set_def enc_a1 file_Write_Healthy write_at_def)

theorem calls_after_Close_counterexample:
  "fst (DiskStore_Close
         (DiskStore_Set (the (fst (NewDiskStore ''books.db'' None True))) 1 ''a'' ''1'' Healthy) True)
   \<and> fst (DiskStore_Get (snd (DiskStore_Close
         (DiskStore_Set (the (fst (NewDiskStore ''books.db'' None True))) 1 ''a'' ''1'' Healthy) True))
        ''a'') = Panicked ''Get() error during Seek''"
  unfolding Set_a1
  by (simp add: DiskStore_Close_def file_Close_def DiskStore_Get_def file_Seek_def)

theorem calls_after_Close_witness:
  "fst (DiskStore_Close
         (DiskStore_Set (the (fst (NewDiskStore ''books.db'' None True))) 1 ''a'' ''1'' Healthy) True)
   \<and> fst (DiskStore_Get (calls (snd (DiskStore_Close
         (DiskStore_Set (the (fst (NewDiskStore ''books.db'' None True))) 1 ''a'' ''1'' Healthy) True))
          [CallGet ''a'', CallSet 2 ''b'' ''2'' Healthy, CallClose True]) ''b'')
      = Panicked ''Get() error during Seek''"
proof -
  let ?d0 = "DiskStore_Set (the (fst (NewDiskStore ''books.db'' None True))) 1 ''a'' ''1'' Healthy"
  let ?cs = "[CallGet ''a'', CallSet 2 ''b'' ''2'' Healthy, CallClose True]"
  have h: "fst (DiskStore_Close ?d0 True)"
    unfolding Set_a1 by (simp add: DiskStore_Close_def file_Close_def)
  have k: "keyDir (calls (snd (DiskStore_Close ?d0 True)) ?cs) ''b'' \<noteq> None"
    by (simp add: Close_keyDir Get_keyDir Set_keyDir)
  show ?thesis
    using h k calls_after_Close [OF h refl, of ?cs "''b''"] by simp
qed

lemma call_step_keyDir:
  "key \<notin> set (written_keys [c]) \<Longrightarrow> keyDir (call_step d c) key = keyDir d key"
  by (cases c) (simp_all add: Get_keyDir Set_keyDir Close_keyDir)

lemma written_keys_Cons: "set (written_keys (c # cs)) = set (written_keys [c]) \<union> set (written_keys cs)"
  by (cases c) simp_all

lemma calls_keyDir:
  "key \<notin> set (written_keys cs) \<Longrightarrow> keyDir (calls d cs) key = keyDir d key"
proof (induction cs arbitrary: d)
  case Nil
  then show ?case by simp
next
  case (Cons c cs)
  from Cons.prems have a: "key \<notin> set (written_keys [c])" and b: "key \<notin> set (written_keys cs)"
    unfolding written_keys_Cons [of c cs] by simp_all
  show ?case
    by (simp add: Cons.IH [OF b] call_step_keyDir [OF a])
qed

lemma unat_of_nat_u32: "n < 2 ^ 32 \<Longrightarrow> unat (of_nat n :: u32) = n"
  by (simp add: unat_of_nat)

lemma length_snd_encodeKV: "length (snd (encodeKV ts key val)) = fst (encodeKV ts key val)"
  by (simp add: fst_encodeKV length_encodeKV)

text \<open>The documented use: on a new store, the first record written is read back.\<close>

lemma Get_first_Set:
  assumes "12 + length key + length val < 2 ^ 32"
  shows "fst (DiskStore_Get
            (DiskStore_Set (the (fst (NewDiskStore fileName existing True))) ts key val Healthy) key)
         = Returned val"
proof -
  define bs where "bs = snd (encodeKV ts key val)"
  define d where "d = DiskStore_Set (the (fst (NewDiskStore fileName existing True))) ts key val Healthy"
  have len: "length bs = 12 + length key + length val"
    by (simp add: bs_def length_encodeKV)
  then have ne: "bs \<noteq> []"
    by auto
  have "unat (of_nat (12 + length key + length val) :: u32) = 12 + length key + length val"
    using assms by (rule unat_of_nat_u32)
  then have sz: "unat (of_nat (fst (encodeKV ts key val)) :: u32) = length bs"
    by (simp only: fst_encodeKV len)
  have f: "file' d = \<lparr>handle = Opened, content = bs, cursor = length bs\<rparr>"
    by (simp add: d_def Set_file fresh_store file_Write_Healthy write_at_def bs_def [symmetric] ne)
  have k: "keyDir d key = Some (NewKeyEntry ts 0 (of_nat (fst (encodeKV ts key val))))"
    by (simp add: d_def Set_keyDir fresh_store)
  have o: "handle (file' d) = Opened"
    by (simp add: f)
  have r: "file_Read ((file' d)\<lparr>cursor := unat (Position (NewKeyEntry ts 0 (of_nat (fst (encodeKV ts key val)))))\<rparr>)
             (unat (TotalSize (NewKeyEntry ts 0 (of_nat (fst (encodeKV ts key val))))))
           = (\<lparr>handle = Opened, content = bs, cursor = length bs\<rparr>, bs, None)"
    using ne by (simp add: f NewKeyEntry_def sz file_Read_def)
  have dec: "decodeKV bs = Some (ts, key, val)"
    unfolding bs_def using assms by (intro decode_encode_bounded) simp_all
  show ?thesis
    unfolding d_def [symmetric] Get_open [OF k o r]
    by (simp add: dec)
qed

text \<open>
  C3, as amended.  For every key never written to the store, \<^verbatim>\<open>Get\<close> returns the empty
  string and leaves the store as it is; there is no "not found" outcome.  On a newly
  opened store whose file was created, that is also the outcome of getting a key that
  was just set to the empty string, when the write succeeded and the key is shorter
  than \<open>2^32 - 12\<close> bytes (its record size fits in 32 bits): there, absence and an empty
  value are not distinguishable.
\<close>

theorem Get_never_written:
  assumes "NewDiskStore fileName existing ok = (Some d0, err)"
    and "key \<notin> set (written_keys cs)"
  shows "DiskStore_Get (calls d0 cs) key = (Returned [], calls d0 cs)
    \<and> (ok \<and> 12 + length k < 2 ^ 32 \<longrightarrow>
         fst (DiskStore_Get (DiskStore_Set d0 ts k [] Healthy) k) = Returned [])"
proof -
  have d0: "d0 = \<lparr>file' = \<lparr>handle = (if ok then Opened else NilFile), content = [], cursor = 0\<rparr>,
            keyDir = Map.empty, offset = 0\<rparr>"
    using assms(1) by (simp add: fresh_store)
  then have "keyDir (calls d0 cs) key = None"
    by (simp add: calls_keyDir [OF assms(2)])
  then have a: "DiskStore_Get (calls d0 cs) key = (Returned [], calls d0 cs)"
    by (rule Get_None)
  have b: "fst (DiskStore_Get (DiskStore_Set d0 ts k [] Healthy) k) = Returned []"
    if "ok" and "12 + length k < 2 ^ 32"
  proof -
    have "d0 = the (fst (NewDiskStore fileName existing True))"
      using assms(1) that(1) by simp
    then show ?thesis
      using Get_first_Set [of k "[]" fileName existing ts] that(2) by simp
  qed
  from a b show ?thesis by blast
qed

theorem Get_never_written_witness:
  "NewDiskStore ''books.db'' None True = (Some (the (fst (NewDiskStore ''books.db'' None True))), None)
   \<and> ''missing'' \<notin> set (written_keys [CallSet 1 ''e'' '''' Healthy, CallGet ''e''])
   \<and> (12 + length ''e'' < (2::nat) ^ 32)
   \<and> fst (DiskStore_Get (calls (the (fst (NewDiskStore ''books.db'' None True)))
             [CallSet 1 ''e'' '''' Healthy, CallGet ''e'']) ''missing'') = Returned []
   \<and> fst (DiskStore_Get (DiskStore_Set (the (fst (NewDiskStore ''books.db'' None True))) 1 ''e'' '''' Healthy)
         ''e'') = Returned []"
proof -
  have h1: "NewDiskStore ''books.db'' None True
      = (Some (the (fst (NewDiskStore ''books.db'' None True))), None)"
    by (simp add: fresh_store)
  have h2: "''missing'' \<notin> set (written_keys [CallSet 1 ''e'' '''' Healthy, CallGet ''e''])"
    by simp
  have h3: "12 + length ''e'' < (2::nat) ^ 32"
    by simp
  show ?thesis
    using h1 h2 h3 Get_never_written [OF h1 h2, of "''e''" 1] by simp
qed

theorem Get_never_written_counterexample:
  "fst (DiskStore_Get (the (fst (NewDiskStore ''books.db'' None True))) ''missing'')
   = fst (DiskStore_Get
       (DiskStore_Set (the (fst (NewDiskStore ''books.db'' None True))) 1 ''e'' '''' Healthy) ''e'')"
proof -
  have "fst (DiskStore_Get (the (fst (NewDiskStore ''books.db'' None True))) ''missing'') = Returned []"
    by (simp add: fresh_store Get_None)
  moreover have "fst (DiskStore_Get
       (DiskStore_Set (the (fst (NewDiskStore ''books.db'' None True))) 1 ''e'' '''' Healthy) ''e'')
     = Returned []"
    by (rule Get_first_Set) simp
  ultimately show ?thesis by simp
qed

lemma file_Write_no_room:
  "bs \<noteq> [] \<Longrightarrow> \<exists>n e. file_Write f bs (FailsAfter 0) = (f, n, Some e)"
  by (cases "handle f") (simp_all add: file_Write_def write_at_def)

text \<open>
  C8.  \<^verbatim>\<open>Set\<close> is not atomic on write failure: for every call, whatever the file and the
  device do, the key directory has the new entry and the write cursor has advanced, and
  the store that results depends on the \<^verbatim>\<open>Write\<close> call only through the file it leaves;
  its byte count and its error are dropped.  So when the device takes no byte at all, the
  write fails and the file is as before, yet the key directory and the cursor have
  changed.
\<close>

theorem Set_not_atomic:
  "DiskStore_Set d ts key val dk =
     \<lparr>file' = fst (file_Write (file' d) (snd (encodeKV ts key val)) dk),
      keyDir = (keyDir d)(key \<mapsto> NewKeyEntry ts (offset d) (of_nat (fst (encodeKV ts key val)))),
      offset = offset d + of_nat (fst (encodeKV ts key val)) + 1\<rparr>
   \<and> snd (snd (file_Write (file' d) (snd (encodeKV ts key val)) (FailsAfter 0))) \<noteq> None
   \<and> DiskStore_Set d ts key val (FailsAfter 0) =
     d\<lparr>keyDir := (keyDir d)(key \<mapsto> NewKeyEntry ts (offset d) (of_nat (fst (encodeKV ts key val)))),
       offset := offset d + of_nat (fst (encodeKV ts key val)) + 1\<rparr>"
proof -
  obtain totalSize byteArr where e: "encodeKV ts key val = (totalSize, byteArr)"
    by (cases "encodeKV ts key val")
  have a: "DiskStore_Set d ts key val dk' =
     \<lparr>file' = fst (file_Write (file' d) byteArr dk'),
      keyDir = (keyDir d)(key \<mapsto> NewKeyEntry ts (offset d) (of_nat totalSize)),
      offset = offset d + of_nat totalSize + 1\<rparr>" for dk'
  proof -
    obtain f n err where w: "file_Write (file' d) byteArr dk' = (f, n, err)"
      by (metis prod_cases3)
    show ?thesis
      by (simp add: DiskStore_Set_def e w Let_def)
  qed
  have "length byteArr = 12 + length key + length val"
    using length_encodeKV [of ts key val] by (simp add: e)
  then have "byteArr \<noteq> []"
    by auto
  then obtain n err where w0: "file_Write (file' d) byteArr (FailsAfter 0) = (file' d, n, Some err)"
    using file_Write_no_room by blast
  show ?thesis
    using a [of dk] by (simp add: e a [of "FailsAfter 0"] w0)
qed

lemma file_Write_ok:
  assumes "snd (snd (file_Write f bs dk)) = None"
  shows "file_Write f bs dk =
    (f\<lparr>content := write_at (content f) (cursor f) bs, cursor := cursor f + length bs\<rparr>,
     length bs, None)"
proof (cases "handle f")
  case NilFile
  with assms show ?thesis by (simp add: file_Write_def)
next
  case Released
  with assms show ?thesis by (simp add: file_Write_def)
next
  case Opened
  show ?thesis
  proof (cases dk)
    case Healthy
    then show ?thesis by (simp add: file_Write_Healthy [OF Opened])
  next
    case (FailsAfter m)
    with assms Opened have "\<not> min m (length bs) < length bs"
      by (simp add: file_Write_def Let_def split: if_splits)
    then have "min m (length bs) = length bs"
      by simp
    then show ?thesis
      by (simp add: file_Write_def Opened FailsAfter Let_def)
  qed
qed

lemma write_at_end: "write_at old (length old) bs = old @ bs"
  by (simp add: write_at_def)

text \<open>
  C7, as amended.  Every \<^verbatim>\<open>Set\<close> records the current write cursor as the new entry's
  position and then advances the cursor by the number of encoded bytes plus one (in
  32-bit arithmetic), while handing exactly the encoded bytes to one \<^verbatim>\<open>Write\<close> call.
  When that call succeeds, exactly that many bytes are written at the file's offset (at
  the end of the file they are appended; the reserved byte is never written); when the
  file is closed or could not be created, nothing is written.
\<close>

theorem Set_cursor_arithmetic:
  "map_option Position (keyDir (DiskStore_Set d ts key val dk) key) = Some (offset d)
   \<and> offset (DiskStore_Set d ts key val dk)
       = offset d + of_nat (length (snd (encodeKV ts key val))) + 1
   \<and> file' (DiskStore_Set d ts key val dk)
       = fst (file_Write (file' d) (snd (encodeKV ts key val)) dk)
   \<and> (snd (snd (file_Write (file' d) (snd (encodeKV ts key val)) dk)) = None \<longrightarrow>
        fst (snd (file_Write (file' d) (snd (encodeKV ts key val)) dk))
          = length (snd (encodeKV ts key val))
        \<and> content (file' (DiskStore_Set d ts key val dk))
          = write_at (content (file' d)) (cursor (file' d)) (snd (encodeKV ts key val))
        \<and> cursor (file' (DiskStore_Set d ts key val dk))
          = cursor (file' d) + length (snd (encodeKV ts key val))
        \<and> (cursor (file' d) = length (content (file' d)) \<longrightarrow>
             content (file' (DiskStore_Set d ts key val dk))
               = content (file' d) @ snd (encodeKV ts key val)))
   \<and> (handle (file' d) \<noteq> Opened \<longrightarrow> file' (DiskStore_Set d ts key val dk) = file' d)"
proof -
  have a: "map_option Position (keyDir (DiskStore_Set d ts key val dk) key) = Some (offset d)"
    by (simp add: Set_keyDir NewKeyEntry_def)
  have b: "offset (DiskStore_Set d ts key val dk)
       = offset d + of_nat (length (snd (encodeKV ts key val))) + 1"
    by (simp only: Set_offset length_snd_encodeKV)
  have c: "fst (snd (file_Write (file' d) (snd (encodeKV ts key val)) dk))
          = length (snd (encodeKV ts key val))
        \<and> content (file' (DiskStore_Set d ts key val dk))
          = write_at (content (file' d)) (cursor (file' d)) (snd (encodeKV ts key val))
        \<and> cursor (file' (DiskStore_Set d ts key val dk))
          = cursor (file' d) + length (snd (encodeKV ts key val))
        \<and> (cursor (file' d) = length (content (file' d)) \<longrightarrow>
             content (file' (DiskStore_Set d ts key val dk))
               = content (file' d) @ snd (encodeKV ts key val))"
    if "snd (snd (file_Write (file' d) (snd (encodeKV ts key val)) dk)) = None"
    by (simp add: Set_file file_Write_ok [OF that] write_at_end)
  have e: "file' (DiskStore_Set d ts key val dk) = file' d" if "handle (file' d) \<noteq> Opened"
    by (simp add: Set_file file_Write_closed [OF that])
  from a b c e Set_file [of d ts key val dk] show ?thesis
    by blast
qed

lemma enc_b2: "encodeKV 2 ''b'' ''2'' = (14, [2,0,0,0,1,0,0,0,1,0,0,0,98,50])"
  by (simp add: encodeKV_def encodeHeader_def PutUint32_def bytes_of_string_def byte_of_char_def
      drop_bit_eq_div headerSize_def)

lemma Close_Set_a1:
  "DiskStore_Close
     (DiskStore_Set (the (fst (NewDiskStore ''books.db'' None True))) 1 ''a'' ''1'' Healthy) True =
   (True, \<lparr>file' = \<lparr>handle = Released, content = [1,0,0,0,1,0,0,0,1,0,0,0,97,49], cursor = 14\<rparr>,
      keyDir = [''a'' \<mapsto> NewKeyEntry 1 0 14], offset = 15\<rparr>)"
  unfolding Set_a1 by (simp add: DiskStore_Close_def file_Close_def)

theorem Set_cursor_arithmetic_counterexample:
  "length (snd (encodeKV 2 ''b'' ''2'')) = 14
   \<and> content (file' (DiskStore_Set (snd (DiskStore_Close
         (DiskStore_Set (the (fst (NewDiskStore ''books.db'' None True))) 1 ''a'' ''1'' Healthy) True))
         2 ''b'' ''2'' Healthy))
     = content (file' (snd (DiskStore_Close
         (DiskStore_Set (the (fst (NewDiskStore ''books.db'' None True))) 1 ''a'' ''1'' Healthy) True)))"
  unfolding Close_Set_a1
  by (simp add: enc_b2 Set_file file_Write_def)

theorem Set_cursor_arithmetic_witness:
  "snd (snd (file_Write (file' (the (fst (NewDiskStore ''books.db'' None True))))
       (snd (encodeKV 1 ''a'' ''1'')) Healthy)) = None
   \<and> cursor (file' (the (fst (NewDiskStore ''books.db'' None True))))
       = length (content (file' (the (fst (NewDiskStore ''books.db'' None True)))))
   \<and> content (file' (DiskStore_Set (the (fst (NewDiskStore ''books.db'' None True))) 1 ''a'' ''1'' Healthy))
       = [1,0,0,0,1,0,0,0,1,0,0,0,97,49]
   \<and> offset (DiskStore_Set (the (fst (NewDiskStore ''books.db'' None True))) 1 ''a'' ''1'' Healthy) = 15
   \<and> handle (file' (the (fst (NewDiskStore ''books.db'' None False)))) \<noteq> Opened
   \<and> file' (DiskStore_Set (the (fst (NewDiskStore ''books.db'' None False))) 1 ''a'' ''1'' Healthy)
       = file' (the (fst (NewDiskStore ''books.db'' None False)))"
proof -
  have h1: "snd (snd (file_Write (file' (the (fst (NewDiskStore ''books.db'' None True))))
       (snd (encodeKV 1 ''a'' ''1'')) Healthy)) = None"
    by (simp add: fresh_store file_Write_Healthy)
  have h2: "cursor (file' (the (fst (NewDiskStore ''books.db'' None True))))
       = length (content (file' (the (fst (NewDiskStore ''books.db'' None True)))))"
    by (simp add: fresh_store)
  have h3: "handle (file' (the (fst (NewDiskStore ''books.db'' None False)))) \<noteq> Opened"
    by (simp add: fresh_store)
  have c: "content (file' (the (fst (NewDiskStore ''books.db'' None True)))) = []"
    by (simp add: fresh_store)
  have o: "offset (the (fst (NewDiskStore ''books.db'' None True))) = 0"
    by (simp add: fresh_store)
  let ?d = "the (fst (NewDiskStore ''books.db'' None True))"
  let ?n = "the (fst (NewDiskStore ''books.db'' None False))"
  have A: "content (file' (DiskStore_Set ?d 1 ''a'' ''1'' Healthy))
      = content (file' ?d) @ snd (encodeKV 1 ''a'' ''1'')"
    using Set_cursor_arithmetic [of ?d 1 "''a''" "''1''" Healthy] h1 h2 by blast
  have B: "offset (DiskStore_Set ?d 1 ''a'' ''1'' Healthy)
      = offset ?d + of_nat (length (snd (encodeKV 1 ''a'' ''1''))) + 1"
    using Set_cursor_arithmetic [of ?d 1 "''a''" "''1''" Healthy] by blast
  have C: "file' (DiskStore_Set ?n 1 ''a'' ''1'' Healthy) = file' ?n"
    using Set_cursor_arithmetic [of ?n 1 "''a''" "''1''" Healthy] h3 by blast
  show ?thesis
    using h1 h2 h3 A B C by (simp add: enc_a1 c o)
qed

text \<open>
  C9.  \<^verbatim>\<open>NewDiskStore\<close> always returns a store (never nil) with an empty key directory
  and write cursor 0.  When the file is created, it is empty whatever the path held
  before, and no record of an earlier log is replayed.  When creating it fails, the error
  is returned beside a store whose file handle is nil: writing, seeking and reading fail
  with \<^verbatim>\<open>ErrInvalid\<close> and \<^verbatim>\<open>Close\<close> returns false.
\<close>

theorem NewDiskStore_result:
  "fst (NewDiskStore fileName existing ok) \<noteq> None
   \<and> keyDir (the (fst (NewDiskStore fileName existing ok))) = Map.empty
   \<and> offset (the (fst (NewDiskStore fileName existing ok))) = 0
   \<and> content (file' (the (fst (NewDiskStore fileName existing ok)))) = []
   \<and> (ok \<longrightarrow> snd (NewDiskStore fileName existing ok) = None
        \<and> file' (the (fst (NewDiskStore fileName existing ok)))
            = \<lparr>handle = Opened, content = [], cursor = 0\<rparr>)
   \<and> (\<not> ok \<longrightarrow> snd (NewDiskStore fileName existing ok) = Some ErrCreate
        \<and> handle (file' (the (fst (NewDiskStore fileName existing ok)))) = NilFile
        \<and> file_Write (file' (the (fst (NewDiskStore fileName existing ok)))) bs dk
            = (file' (the (fst (NewDiskStore fileName existing ok))), 0, Some ErrInvalid)
        \<and> snd (file_Seek (file' (the (fst (NewDiskStore fileName existing ok)))) pos)
            = Some ErrInvalid
        \<and> snd (snd (file_Read (file' (the (fst (NewDiskStore fileName existing ok)))) n))
            = Some ErrInvalid
        \<and> \<not> fst (DiskStore_Close (the (fst (NewDiskStore fileName existing ok))) c))"
  by (cases ok)
    (simp_all add: fresh_store file_Write_def file_Seek_def file_Read_def DiskStore_Close_def
      file_Close_def)

theorem NewDiskStore_result_witness:
  "snd (NewDiskStore ''books.db'' (Some [1, 2, 3]) True) = None
   \<and> file' (the (fst (NewDiskStore ''books.db'' (Some [1, 2, 3]) True)))
       = \<lparr>handle = Opened, content = [], cursor = 0\<rparr>
   \<and> snd (NewDiskStore ''books.db'' (Some [1, 2, 3]) False) = Some ErrCreate
   \<and> handle (file' (the (fst (NewDiskStore ''books.db'' (Some [1, 2, 3]) False)))) = NilFile
   \<and> \<not> fst (DiskStore_Close (the (fst (NewDiskStore ''books.db'' (Some [1, 2, 3]) False))) True)"
  using NewDiskStore_result [of "''books.db''" "Some [1, 2, 3]" True]
    NewDiskStore_result [of "''books.db''" "Some [1, 2, 3]" False _ _ _ _ True]
  by simp

lemma MemoryStore_Sets_data:
  "key \<notin> set (map fst kvs) \<Longrightarrow> data (MemoryStore_Sets m kvs) key = data m key"
  by (induction kvs arbitrary: m) (auto simp: MemoryStore_Set_def)

text \<open>
  C10.  \<^verbatim>\<open>MemoryStore.Get\<close> of a key that was never set returns the zero-value entry,
  which is also what it returns once that key is set to the zero-value entry: the result
  type has no "not found" signal.  \<^verbatim>\<open>Close\<close> always returns true.
\<close>

theorem MemoryStore_Get_never_set:
  assumes "key \<notin> set (map fst kvs)"
  shows "MemoryStore_Get (MemoryStore_Sets NewMemoryStore kvs) key = zero_KeyEntry
    \<and> MemoryStore_Get (MemoryStore_Set (MemoryStore_Sets NewMemoryStore kvs) key zero_KeyEntry) key
        = MemoryStore_Get (MemoryStore_Sets NewMemoryStore kvs) key
    \<and> MemoryStore_Close m"
  using MemoryStore_Sets_data [OF assms, of NewMemoryStore]
  by (simp add: MemoryStore_Get_def MemoryStore_Set_def NewMemoryStore_def MemoryStore_Close_def)

theorem MemoryStore_Get_never_set_witness:
  "''b'' \<notin> set (map fst [(''a'', NewKeyEntry 1 0 14)])
   \<and> MemoryStore_Get (MemoryStore_Sets NewMemoryStore [(''a'', NewKeyEntry 1 0 14)]) ''b''
       = zero_KeyEntry
   \<and> MemoryStore_Get (MemoryStore_Set (MemoryStore_Sets NewMemoryStore [(''a'', NewKeyEntry 1 0 14)])
         ''b'' zero_KeyEntry) ''b'' = zero_KeyEntry"
proof -
  have h: "''b'' \<notin> set (map fst [(''a'', NewKeyEntry 1 0 14)])"
    by simp
  show ?thesis
    using h MemoryStore_Get_never_set [OF h] by simp
qed

lemma enc_one_byte:
  "encodeKV ts [k] [v] = (14, PutUint32 ts @ [1,0,0,0,1,0,0,0, byte_of_char k, byte_of_char v])"
  by (simp add: encodeKV_def encodeHeader_def PutUint32_def bytes_of_string_def
      drop_bit_eq_div headerSize_def)

lemma Set_one_byte:
  "DiskStore_Set (the (fst (NewDiskStore fileName existing True))) ts [k] [v] Healthy =
     \<lparr>file' = \<lparr>handle = Opened,
        content = PutUint32 ts @ [1,0,0,0,1,0,0,0, byte_of_char k, byte_of_char v], cursor = 14\<rparr>,
      keyDir = [[k] \<mapsto> NewKeyEntry ts 0 14], offset = 15\<rparr>"
  by (simp add: fresh_store DiskStore_Set_def enc_one_byte file_Write_Healthy write_at_def
      PutUint32_def)

lemma Sets_two_one_byte:
  "Sets (the (fst (NewDiskStore fileName existing True)))
       [(ts1, [k1], [v1], Healthy), (ts2, [k2], [v2], Healthy)] =
     \<lparr>file' = \<lparr>handle = Opened,
        content = PutUint32 ts1 @ [1,0,0,0,1,0,0,0, byte_of_char k1, byte_of_char v1]
          @ PutUint32 ts2 @ [1,0,0,0,1,0,0,0, byte_of_char k2, byte_of_char v2], cursor = 28\<rparr>,
      keyDir = [[k1] \<mapsto> NewKeyEntry ts1 0 14, [k2] \<mapsto> NewKeyEntry ts2 15 14], offset = 30\<rparr>"
  apply (simp only: Sets.simps Set_one_byte)
  apply (simp add: DiskStore_Set_def enc_one_byte file_Write_Healthy write_at_def PutUint32_def)
  done

lemma decode_shifted_gen: "decodeKV [b1,b2,b3,1,0,0,0,1,0,0,0,k,v,0] = None"
  by (simp add: decodeKV_def headerSize_def decodeHeader_def Uint32_def)

text \<open>
  C2.  Last write wins: after \<^verbatim>\<open>Set(k, v1)\<close> and \<^verbatim>\<open>Set(k, v2)\<close> on an open store,
  \<^verbatim>\<open>Get(k)\<close> returns \<open>v2\<close>, and the entry for \<open>k\<close> describes the most recently written
  record.  The code misses this by one byte.  On a new store, whatever the clock says,
  after \<^verbatim>\<open>Set("a", "1")\<close> and \<^verbatim>\<open>Set("a", "2")\<close> the second record starts at byte 14
  of the file, right after the first, while the entry for \<open>a\<close> has position 15;
  \<^verbatim>\<open>Get("a")\<close> reads from byte 15 on, finds a key length of \<open>2^24\<close> in the shifted
  header, and panics instead of returning \<open>2\<close>.
\<close>

theorem last_write_misread:
  "keyDir (Sets (the (fst (NewDiskStore fileName existing True)))
       [(ts1, ''a'', ''1'', Healthy), (ts2, ''a'', ''2'', Healthy)]) ''a''
     = Some (NewKeyEntry ts2 15 14)
   \<and> content (file' (Sets (the (fst (NewDiskStore fileName existing True)))
       [(ts1, ''a'', ''1'', Healthy), (ts2, ''a'', ''2'', Healthy)]))
     = snd (encodeKV ts1 ''a'' ''1'') @ snd (encodeKV ts2 ''a'' ''2'')
   \<and> length (snd (encodeKV ts1 ''a'' ''1'')) = 14
   \<and> fst (DiskStore_Get (Sets (the (fst (NewDiskStore fileName existing True)))
       [(ts1, ''a'', ''1'', Healthy), (ts2, ''a'', ''2'', Healthy)]) ''a'')
     = Panicked ''decodeKV: slice bounds out of range''"
proof -
  let ?d = "Sets (the (fst (NewDiskStore fileName existing True)))
       [(ts1, ''a'', ''1'', Healthy), (ts2, ''a'', ''2'', Healthy)]"
  let ?c = "PutUint32 ts1 @ [1,0,0,0,1,0,0,0, byte_of_char (CHR ''a''), byte_of_char (CHR ''1'')]
          @ PutUint32 ts2 @ [1,0,0,0,1,0,0,0, byte_of_char (CHR ''a''), byte_of_char (CHR ''2'')]"
  have k: "keyDir ?d ''a'' = Some (NewKeyEntry ts2 15 14)"
    unfolding Sets_two_one_byte by simp
  have o: "handle (file' ?d) = Opened"
    unfolding Sets_two_one_byte by simp
  have r: "file_Read ((file' ?d)\<lparr>cursor := unat (Position (NewKeyEntry ts2 15 14))\<rparr>)
      (unat (TotalSize (NewKeyEntry ts2 15 14)))
    = (\<lparr>handle = Opened, content = ?c, cursor = 28\<rparr>,
       [ucast (drop_bit 8 ts2), ucast (drop_bit 16 ts2), ucast (drop_bit 24 ts2),
        1,0,0,0,1,0,0,0, byte_of_char (CHR ''a''), byte_of_char (CHR ''2''), 0], None)"
    unfolding Sets_two_one_byte by (simp add: NewKeyEntry_def file_Read_def PutUint32_def)
  have g: "fst (DiskStore_Get ?d ''a'') = Panicked ''decodeKV: slice bounds out of range''"
    unfolding Get_open [OF k o r] by (simp add: decode_shifted_gen)
  have c: "content (file' ?d) = snd (encodeKV ts1 ''a'' ''1'') @ snd (encodeKV ts2 ''a'' ''2'')"
    unfolding Sets_two_one_byte by (simp add: enc_one_byte)
  have l: "length (snd (encodeKV ts1 ''a'' ''1'')) = 14"
    by (simp add: length_encodeKV)
  from k c l g show ?thesis by simp
qed

text \<open>
  C5.  After every run of \<^verbatim>\<open>Set\<close> calls on an open store, every entry of the key
  directory has \<open>position + totalSize\<close> at most the length of the log.  The code misses
  this by one byte per record.  On a new store, whatever the clock says, after
  \<^verbatim>\<open>Set("a", "1")\<close> and \<^verbatim>\<open>Set("b", "2")\<close> the file has 28 bytes and the entry for
  \<open>b\<close> has position 15 and size 14: it ends at 29.
\<close>

theorem entry_past_end_of_log:
  "keyDir (Sets (the (fst (NewDiskStore fileName existing True)))
       [(ts1, ''a'', ''1'', Healthy), (ts2, ''b'', ''2'', Healthy)]) ''b''
     = Some (NewKeyEntry ts2 15 14)
   \<and> length (content (file' (Sets (the (fst (NewDiskStore fileName existing True)))
       [(ts1, ''a'', ''1'', Healthy), (ts2, ''b'', ''2'', Healthy)]))) = 28
   \<and> \<not> unat (Position (NewKeyEntry ts2 15 14)) + unat (TotalSize (NewKeyEntry ts2 15 14))
       \<le> length (content (file' (Sets (the (fst (NewDiskStore fileName existing True)))
       [(ts1, ''a'', ''1'', Healthy), (ts2, ''b'', ''2'', Healthy)])))"
  unfolding Sets_two_one_byte by (simp add: NewKeyEntry_def PutUint32_def)









end
